theory Spec2Isabelle
  imports Complex_Main
begin

section \<open>Tables\<close>

text \<open>
  The pipeline of \<^verbatim>\<open>src/etl/pipeline.py\<close> works on pandas data frames. A frame
  is modelled as its row count (the length of its index) and its columns in order, each a
  label with its cells. A label is a \<open>string option\<close>: \<open>None\<close> is Python's \<open>None\<close>,
  which is what \<^verbatim>\<open>dict.get\<close> gives for an absent key and which pandas accepts as a
  column label. A cell is a number, a string or null (\<open>None\<close>/\<open>NaN\<close>); numbers are
  exact rationals, so floating-point rounding is not part of the model.
\<close>

datatype cell = Null | Num rat | Str string

type_synonym label = "string option"

record table =
  nrows :: nat
  cols :: "(label \<times> cell list) list"

definition labels :: "table \<Rightarrow> label list" where
  "labels t = map fst (cols t)"

text \<open>
  Exceptions are values. \<open>KeyError\<close> is what pandas raises for a label that no
  column carries (the specification calls it \<open>ColumnNotFoundError\<close>);
  \<open>NameError\<close> stands for its subclass \<open>UndefinedVariableError\<close>, which the
  expression evaluator raises for a name it cannot resolve; \<open>ClientError\<close> is the storage
  client's failure. \<open>Unmodelled\<close> is not a Python exception: it marks the situations
  the model leaves out (see \<open>groupby_agg\<close> and \<open>getitem\<close>).
\<close>

datatype exn =
  KeyError | ValueError | TypeError | NameError | ClientError | OtherError | Unmodelled

subsection \<open>The data-frame operations the pipeline calls\<close>

definition isnull :: "cell \<Rightarrow> bool" where
  "isnull c = (c = Null)"

text \<open>
  \<^verbatim>\<open>DataFrame.dropna(subset=...)\<close> with the defaults \<open>axis=0, how='any'\<close>: a row
  stays when none of the selected columns is null there. A label of the subset that
  no column carries raises \<open>KeyError\<close>. The result is a new frame.
\<close>

definition notnull_mask :: "nat \<Rightarrow> cell list list \<Rightarrow> bool list" where
  "notnull_mask n cs =
     foldl (\<lambda>m c. map2 (\<and>) m (map (\<lambda>x. \<not> isnull x) c)) (replicate n True) cs"

definition take_rows :: "bool list \<Rightarrow> table \<Rightarrow> table" where
  "take_rows m t =
     \<lparr>nrows = length (filter id m),
      cols = map (\<lambda>(l, c). (l, map fst (filter snd (zip c m)))) (cols t)\<rparr>"

definition dropna :: "table \<Rightarrow> label list option \<Rightarrow> exn + table" where
  "dropna t subs =
     (case subs of
        None \<Rightarrow> Inr (take_rows (notnull_mask (nrows t) (map snd (cols t))) t)
      | Some ls \<Rightarrow>
          if \<exists>l \<in> set ls. l \<notin> set (labels t) then Inl KeyError
          else Inr (take_rows
                 (notnull_mask (nrows t)
                    (map snd (filter (\<lambda>(l, c). l \<in> set ls) (cols t)))) t))"

text \<open>
  \<^verbatim>\<open>DataFrame.fillna(value)\<close>: every null cell of every column becomes the value;
  \<^verbatim>\<open>fillna(None)\<close> raises \<open>ValueError\<close>.
\<close>

definition fillna :: "table \<Rightarrow> cell \<Rightarrow> exn + table" where
  "fillna t v =
     (if v = Null then Inl ValueError
      else Inr (t\<lparr>cols := map (\<lambda>(l, c). (l, map (\<lambda>x. if isnull x then v else x) c)) (cols t)\<rparr>))"

text \<open>
  \<^verbatim>\<open>DataFrame.rename(columns=mapping)\<close> with the default \<open>errors='ignore'\<close>: a
  label that is a key of the mapping is replaced by its image, every other label stays,
  and a key that no column carries is ignored. Nothing checks the new labels for
  collisions.
\<close>

definition relabel :: "(label \<rightharpoonup> label) \<Rightarrow> label \<Rightarrow> label" where
  "relabel m l = (case m l of None \<Rightarrow> l | Some l' \<Rightarrow> l')"

definition rename :: "table \<Rightarrow> (label \<rightharpoonup> label) \<Rightarrow> table" where
  "rename t m = t\<lparr>cols := map (\<lambda>(l, c). (relabel m l, c)) (cols t)\<rparr>"

text \<open>
  \<^verbatim>\<open>df[label] = scalar\<close>: the scalar is broadcast over the rows; it replaces every
  column that carries the label, in place, or is appended as a new last column when no
  column does.
\<close>

definition setitem :: "table \<Rightarrow> label \<Rightarrow> cell \<Rightarrow> table" where
  "setitem t l v =
     (if l \<in> set (labels t)
      then t\<lparr>cols := map (\<lambda>(k, c). if k = l then (k, replicate (nrows t) v) else (k, c)) (cols t)\<rparr>
      else t\<lparr>cols := cols t @ [(l, replicate (nrows t) v)]\<rparr>)"

text \<open>
  The expression parser and evaluator behind \<^verbatim>\<open>DataFrame.query\<close>, the grouping and
  reduction behind \<^verbatim>\<open>groupby(...).agg(...).reset_index()\<close> and the casts behind
  \<^verbatim>\<open>Series.astype\<close> belong to the data library, not to this repository. They are
  parameters of the model: every theorem below holds for whatever they compute.
  \<open>condition_names\<close> gives the names that the parser finds in a condition and that the
  evaluator looks up among the columns.
\<close>

record engine =
  condition_names :: "string \<Rightarrow> label list"
  eval_query :: "table \<Rightarrow> string \<Rightarrow> exn + table"
  agg_groups :: "table \<Rightarrow> label list \<Rightarrow> (label \<times> string) list \<Rightarrow> exn + table"
  astype :: "cell list \<Rightarrow> string option \<Rightarrow> exn + cell list"

text \<open>
  What the library does with a name before it computes anything is modelled, for a frame
  whose index has no name (the decoders' default), so that a name is only ever resolved
  against the columns.

  \<^verbatim>\<open>DataFrame.query(expr)\<close>: an \<open>expr\<close> that is not a string raises \<open>ValueError\<close>;
  a name of the expression that no column carries raises \<open>UndefinedVariableError\<close>;
  otherwise the evaluator decides.
\<close>

definition query :: "engine \<Rightarrow> table \<Rightarrow> string option \<Rightarrow> exn + table" where
  "query E t condition =
     (case condition of
        None \<Rightarrow> Inl ValueError
      | Some expr \<Rightarrow>
          if \<exists>n \<in> set (condition_names E expr). n \<notin> set (labels t) then Inl NameError
          else eval_query E t expr)"

text \<open>
  \<^verbatim>\<open>df.groupby(keys).agg(aggs).reset_index()\<close> with a list of keys and a dict of
  aggregations, in the order pandas checks them.
  \<^item> When the keys are not all columns and the list is exactly as long as the frame has
    rows, pandas takes the list itself as the group labels, row by row (``if a list of
    length equal to the selected axis is passed, the values are used as-is''), and looks
    no key up. Otherwise a key that no column carries raises \<open>KeyError\<close>.
  \<^item> An empty key list on a frame with rows raises \<open>ValueError\<close> (``No group keys
    passed!'').
  \<^item> A key of \<open>aggs\<close> that no column carries raises \<open>KeyError\<close> (``Column(s) ... do
    not exist'').
  \<^item> Otherwise the grouping and the reductions decide.
  A key \<open>None\<close> that is not a column label is left out of the model.
\<close>

definition groupby_agg ::
  "engine \<Rightarrow> table \<Rightarrow> label list \<Rightarrow> (label \<times> string) list \<Rightarrow> exn + table" where
  "groupby_agg E t keys aggs =
     (if None \<in> set keys \<and> None \<notin> set (labels t) then Inl Unmodelled
      else if \<not> set keys \<subseteq> set (labels t) \<and> length keys \<noteq> nrows t then Inl KeyError
      else if keys = [] \<and> 0 < nrows t then Inl ValueError
      else if \<not> set (map fst aggs) \<subseteq> set (labels t) then Inl KeyError
      else agg_groups E t keys aggs)"

text \<open>
  \<^verbatim>\<open>df[col] = df[col].astype(dtype)\<close>: reading a label that no column carries raises
  \<open>KeyError\<close>; otherwise every column carrying the label is cast and written back.
\<close>

fun astype_cols ::
  "(cell list \<Rightarrow> exn + cell list) \<Rightarrow> label \<Rightarrow> (label \<times> cell list) list \<Rightarrow>
     exn + (label \<times> cell list) list" where
  "astype_cols f l [] = Inr []"
| "astype_cols f l ((k, c) # rest) =
     (if k = l then
        (case f c of
           Inl e \<Rightarrow> Inl e
         | Inr c' \<Rightarrow>
             (case astype_cols f l rest of
                Inl e \<Rightarrow> Inl e
              | Inr rest' \<Rightarrow> Inr ((k, c') # rest')))
      else
        (case astype_cols f l rest of
           Inl e \<Rightarrow> Inl e
         | Inr rest' \<Rightarrow> Inr ((k, c) # rest')))"

definition convert_column :: "engine \<Rightarrow> table \<Rightarrow> label \<Rightarrow> string option \<Rightarrow> exn + table" where
  "convert_column E t l ty =
     (if l \<notin> set (labels t) then Inl KeyError
      else (case astype_cols (\<lambda>c. astype E c ty) l (cols t) of
              Inl e \<Rightarrow> Inl e
            | Inr cs \<Rightarrow> Inr (t\<lparr>cols := cs\<rparr>)))"

section \<open>The transform engine\<close>

text \<open>
  A transformation is a Python dict read with \<^verbatim>\<open>.get\<close>; the record has one field
  per key the code reads, \<open>None\<close> for an absent key. \<open>value_arg\<close> is the key
  \<^verbatim>\<open>'value'\<close>. The keys \<^verbatim>\<open>'name'\<close> and \<^verbatim>\<open>'column'\<close> are read without a
  default, so an absent key is the label \<open>None\<close>.
\<close>

record transform_cfg =
  operation :: "string option"
  columns :: "label list option"
  value_arg :: "cell option"
  mapping :: "(label \<rightharpoonup> label) option"
  condition :: "string option"
  group_by :: "label list option"
  aggregations :: "(label \<times> string) list option"
  name :: label
  column :: label
  dtype :: "string option"

text \<open>
  Frames are objects: \<^verbatim>\<open>df_transformed[col_name] = ...\<close> changes an object in
  place, the other operations build a new one. The store is the list of the frames
  allocated so far and a reference is an index into it; a new frame is appended.
\<close>

type_synonym heap = "table list"

definition store_new :: "heap \<Rightarrow> exn + table \<Rightarrow> heap \<times> (exn + nat)" where
  "store_new h r = (case r of Inl e \<Rightarrow> (h, Inl e) | Inr t \<Rightarrow> (h @ [t], Inr (length h)))"

definition store_at :: "heap \<Rightarrow> nat \<Rightarrow> exn + table \<Rightarrow> heap \<times> (exn + nat)" where
  "store_at h a r = (case r of Inl e \<Rightarrow> (h, Inl e) | Inr t \<Rightarrow> (h[a := t], Inr a))"

text \<open>
  One pass of the loop body of \<^verbatim>\<open>CloudDataPipeline.transform\<close>: the
  \<^verbatim>\<open>if/elif\<close> chain on \<^verbatim>\<open>transform.get('operation')\<close>, with no \<^verbatim>\<open>else\<close>.
  It returns the store and either the exception raised or the reference now held by
  \<^verbatim>\<open>df_transformed\<close>.
\<close>

definition apply_transform :: "engine \<Rightarrow> transform_cfg \<Rightarrow> heap \<Rightarrow> nat \<Rightarrow> heap \<times> (exn + nat)" where
  "apply_transform E tr h cur =
     (if operation tr = Some ''drop_nulls'' then
        store_new h (dropna (h ! cur) (columns tr))
      else if operation tr = Some ''fill_nulls'' then
        store_new h (fillna (h ! cur) (case value_arg tr of None \<Rightarrow> Num 0 | Some v \<Rightarrow> v))
      else if operation tr = Some ''rename'' then
        store_new h (Inr (rename (h ! cur) (case mapping tr of None \<Rightarrow> Map.empty | Some m \<Rightarrow> m)))
      else if operation tr = Some ''filter'' then
        store_new h (query E (h ! cur) (condition tr))
      else if operation tr = Some ''aggregate'' then
        store_new h (groupby_agg E (h ! cur)
          (case group_by tr of None \<Rightarrow> [] | Some g \<Rightarrow> g)
          (case aggregations tr of None \<Rightarrow> [] | Some a \<Rightarrow> a))
      else if operation tr = Some ''add_column'' then
        store_at h cur (Inr (setitem (h ! cur) (name tr)
          (case value_arg tr of None \<Rightarrow> Null | Some v \<Rightarrow> v)))
      else if operation tr = Some ''convert_type'' then
        store_at h cur (convert_column E (h ! cur) (column tr) (dtype tr))
      else (h, Inr cur))"

fun run_transforms :: "engine \<Rightarrow> transform_cfg list \<Rightarrow> heap \<Rightarrow> nat \<Rightarrow> heap \<times> (exn + nat)" where
  "run_transforms E [] h cur = (h, Inr cur)"
| "run_transforms E (tr # trs) h cur =
     (case apply_transform E tr h cur of
        (h', Inl e) \<Rightarrow> (h', Inl e)
      | (h', Inr cur') \<Rightarrow> run_transforms E trs h' cur')"

text \<open>
  \<^verbatim>\<open>CloudDataPipeline.transform(df, transformations=None)\<close>: \<open>df\<close> is the
  reference the caller passes. \<^verbatim>\<open>df.copy()\<close> allocates a copy, and the loop runs
  only when the list is neither \<open>None\<close> nor empty.
\<close>

definition transform :: "engine \<Rightarrow> heap \<Rightarrow> nat \<Rightarrow> transform_cfg list option \<Rightarrow> heap \<times> (exn + nat)" where
  "transform E h df transformations =
     (let h1 = h @ [h ! df]; df_transformed = length h in
      case transformations of
        None \<Rightarrow> (h1, Inr df_transformed)
      | Some trs \<Rightarrow>
          if trs \<noteq> [] then run_transforms E trs h1 df_transformed
          else (h1, Inr df_transformed))"

text \<open>The frame a call returns, read from the store it leaves.\<close>

definition returned :: "heap \<times> (exn + nat) \<Rightarrow> exn + table" where
  "returned r = (case snd r of Inl e \<Rightarrow> Inl e | Inr a \<Rightarrow> Inr (fst r ! a))"

definition supported_operations :: "string set" where
  "supported_operations =
     {''drop_nulls'', ''fill_nulls'', ''rename'', ''filter'', ''aggregate'',
      ''add_column'', ''convert_type''}"

section \<open>The quality validator\<close>

text \<open>
  A rule is a dict as well: \<open>rule_type\<close> is the key \<^verbatim>\<open>'type'\<close>, \<open>rule_column\<close> the
  key \<^verbatim>\<open>'column'\<close>, \<open>min_val\<close> and \<open>max_val\<close> the keys \<^verbatim>\<open>'min'\<close> and
  \<^verbatim>\<open>'max'\<close> (named after the locals that hold them), and \<open>error\<close> the key the
  validator writes into a failing rule.
\<close>

record rule =
  rule_type :: "string option"
  rule_column :: label
  min_val :: "rat option"
  max_val :: "rat option"
  error :: "string option"

record report =
  passed :: "rule list"
  failed :: "rule list"
  total_rules :: nat
  pass_rate :: rat

text \<open>
  \<^verbatim>\<open>df[column]\<close>: \<open>KeyError\<close> when no column carries the label, the column when
  exactly one does. When several do, pandas hands back a sub-frame; the checks on a
  sub-frame are left out of the model, which stops with \<open>Unmodelled\<close>.
\<close>

definition getitem :: "table \<Rightarrow> label \<Rightarrow> exn + cell list" where
  "getitem df l =
     (case filter (\<lambda>(k, c). k = l) (cols df) of
        [] \<Rightarrow> Inl KeyError
      | [(k, c)] \<Rightarrow> Inr c
      | _ \<Rightarrow> Inl Unmodelled)"

text \<open>The decimal numeral an f-string prints for a count.\<close>

definition digit :: "nat \<Rightarrow> char" where
  "digit d = ''0123456789'' ! d"

function string_of_nat :: "nat \<Rightarrow> string" where
  "string_of_nat n =
     (if n < 10 then [digit n] else string_of_nat (n div 10) @ [digit (n mod 10)])"
  by pat_completeness auto
termination
  by (relation "measure id") auto

declare string_of_nat.simps [simp del]

text \<open>
  \<^verbatim>\<open>Series.duplicated()\<close> with the default \<open>keep='first'\<close>: an entry is marked when
  an equal entry stands before it; nulls count as equal to each other.
\<close>

fun duplicated :: "cell list \<Rightarrow> cell list \<Rightarrow> bool list" where
  "duplicated seen [] = []"
| "duplicated seen (x # xs) = (x \<in> set seen) # duplicated (x # seen) xs"

text \<open>
  \<^verbatim>\<open>series < bound\<close> and \<^verbatim>\<open>series > bound\<close>: a comparison with \<open>None\<close> is false
  everywhere; otherwise a null cell compares false, a number compares as usual and a
  string against a number raises \<open>TypeError\<close>.
\<close>

fun is_Str :: "cell \<Rightarrow> bool" where
  "is_Str (Str s) = True"
| "is_Str c = False"

definition compare_scalar :: "(rat \<Rightarrow> rat \<Rightarrow> bool) \<Rightarrow> cell list \<Rightarrow> rat option \<Rightarrow> exn + bool list" where
  "compare_scalar cmp col bound =
     (case bound of
        None \<Rightarrow> Inr (map (\<lambda>x. False) col)
      | Some b \<Rightarrow>
          if \<exists>x \<in> set col. is_Str x then Inl TypeError
          else Inr (map (\<lambda>x. case x of Num a \<Rightarrow> cmp a b | _ \<Rightarrow> False) col))"

text \<open>
  The frame \<^verbatim>\<open>df[(df[column] < min_val) | (df[column] > max_val)]\<close>: the rows
  where either comparison holds.
\<close>

definition out_of_range :: "table \<Rightarrow> label \<Rightarrow> rat option \<Rightarrow> rat option \<Rightarrow> exn + table" where
  "out_of_range df l lo hi =
     (case getitem df l of
        Inl e \<Rightarrow> Inl e
      | Inr col \<Rightarrow>
          (case compare_scalar (<) col lo of
             Inl e \<Rightarrow> Inl e
           | Inr too_low \<Rightarrow>
               (case compare_scalar (>) col hi of
                  Inl e \<Rightarrow> Inl e
                | Inr too_high \<Rightarrow> Inr (take_rows (map2 (\<or>) too_low too_high) df))))"

text \<open>
  One pass of the loop body of \<^verbatim>\<open>validate_data_quality\<close>, on the lists
  \<^verbatim>\<open>results['passed']\<close> and \<^verbatim>\<open>results['failed']\<close>.
\<close>

definition check_rule :: "table \<Rightarrow> rule \<Rightarrow> rule list \<times> rule list \<Rightarrow> exn + rule list \<times> rule list" where
  "check_rule df r res =
     (if rule_type r = Some ''not_null'' then
        (case getitem df (rule_column r) of
           Inl e \<Rightarrow> Inl e
         | Inr col \<Rightarrow>
             let null_count = length (filter isnull col) in
             if null_count = 0 then Inr (fst res @ [r], snd res)
             else Inr (fst res,
                    snd res @ [r\<lparr>error := Some (string_of_nat null_count @ '' null values found'')\<rparr>]))
      else if rule_type r = Some ''unique'' then
        (case getitem df (rule_column r) of
           Inl e \<Rightarrow> Inl e
         | Inr col \<Rightarrow>
             let duplicate_count = length (filter id (duplicated [] col)) in
             if duplicate_count = 0 then Inr (fst res @ [r], snd res)
             else Inr (fst res,
                    snd res @ [r\<lparr>error := Some (string_of_nat duplicate_count @ '' duplicates found'')\<rparr>]))
      else if rule_type r = Some ''range'' then
        (case out_of_range df (rule_column r) (min_val r) (max_val r) of
           Inl e \<Rightarrow> Inl e
         | Inr out \<Rightarrow>
             if nrows out = 0 then Inr (fst res @ [r], snd res)
             else Inr (fst res,
                    snd res @ [r\<lparr>error := Some (string_of_nat (nrows out) @ '' values out of range'')\<rparr>]))
      else Inr res)"

fun check_rules :: "table \<Rightarrow> rule list \<Rightarrow> rule list \<times> rule list \<Rightarrow> exn + rule list \<times> rule list" where
  "check_rules df [] res = Inr res"
| "check_rules df (r # rs) res =
     (case check_rule df r res of
        Inl e \<Rightarrow> Inl e
      | Inr res' \<Rightarrow> check_rules df rs res')"

definition validate_data_quality :: "table \<Rightarrow> rule list \<Rightarrow> exn + report" where
  "validate_data_quality df rules =
     (case check_rules df rules ([], []) of
        Inl e \<Rightarrow> Inl e
      | Inr res \<Rightarrow>
          Inr \<lparr>passed = fst res, failed = snd res, total_rules = length rules,
               pass_rate = (if rules \<noteq> [] then of_nat (length (fst res)) / of_nat (length rules)
                            else 0)\<rparr>)"

definition known_rule_types :: "string set" where
  "known_rule_types = {''not_null'', ''unique'', ''range''}"

section \<open>The pipeline\<close>

text \<open>
  The storage client and the codecs are outside the repository as well. \<open>'s\<close> is the
  state of the bucket and \<open>'b\<close> the type of an object's body.
\<close>

record ('s, 'b) cloud =
  get_object :: "'s \<Rightarrow> string \<Rightarrow> exn + 'b"
  put_object :: "'s \<Rightarrow> string \<Rightarrow> 'b \<Rightarrow> exn + 's"
  read_csv :: "'b \<Rightarrow> exn + table"
  read_parquet :: "'b \<Rightarrow> exn + table"
  read_json :: "'b \<Rightarrow> exn + table"
  to_parquet :: "table \<Rightarrow> exn + 'b"
  to_csv :: "table \<Rightarrow> exn + 'b"
  to_json :: "table \<Rightarrow> exn + 'b"

definition endswith :: "string \<Rightarrow> string \<Rightarrow> bool" where
  "endswith s suffix_str =
     (length suffix_str \<le> length s \<and> drop (length s - length suffix_str) s = suffix_str)"

definition extract_from_s3 :: "('s, 'b) cloud \<Rightarrow> 's \<Rightarrow> string \<Rightarrow> exn + table" where
  "extract_from_s3 C s key =
     (case get_object C s key of
        Inl e \<Rightarrow> Inl e
      | Inr obj \<Rightarrow>
          if endswith key ''.csv'' then read_csv C obj
          else if endswith key ''.parquet'' then read_parquet C obj
          else if endswith key ''.json'' then read_json C obj
          else Inl ValueError)"

definition load_to_s3 :: "('s, 'b) cloud \<Rightarrow> 's \<Rightarrow> table \<Rightarrow> string \<Rightarrow> string \<Rightarrow> exn + 's" where
  "load_to_s3 C s df key fmt =
     (if fmt = ''parquet'' then
        (case to_parquet C df of Inl e \<Rightarrow> Inl e | Inr buffer \<Rightarrow> put_object C s key buffer)
      else if fmt = ''csv'' then
        (case to_csv C df of Inl e \<Rightarrow> Inl e | Inr buffer \<Rightarrow> put_object C s key buffer)
      else if fmt = ''json'' then
        (case to_json C df of Inl e \<Rightarrow> Inl e | Inr buffer \<Rightarrow> put_object C s key buffer)
      else Inl ValueError)"

record stats =
  input_rows :: nat
  output_rows :: nat
  duration_seconds :: rat
  rows_per_second :: rat
  source :: string
  destination :: string

text \<open>
  \<^verbatim>\<open>run_etl_pipeline\<close>. The two readings of \<^verbatim>\<open>datetime.now()\<close> are inputs, in
  microseconds; \<^verbatim>\<open>total_seconds()\<close> of their difference is that many millionths.
  The frame extracted is the only object of the store the transform starts from.
\<close>

definition run_etl_pipeline ::
  "('s, 'b) cloud \<Rightarrow> engine \<Rightarrow> 's \<Rightarrow> int \<Rightarrow> int \<Rightarrow> string \<Rightarrow> string \<Rightarrow>
     transform_cfg list option \<Rightarrow> string \<Rightarrow> exn + stats \<times> 's" where
  "run_etl_pipeline C E s start_time end_time source_key destination_key transformations output_format =
     (case extract_from_s3 C s source_key of
        Inl e \<Rightarrow> Inl e
      | Inr df \<Rightarrow>
          (case returned (transform E [df] 0 transformations) of
             Inl e \<Rightarrow> Inl e
           | Inr df_transformed \<Rightarrow>
               (case load_to_s3 C s df_transformed destination_key output_format of
                  Inl e \<Rightarrow> Inl e
                | Inr s' \<Rightarrow>
                    let duration = of_int (end_time - start_time) / 1000000 in
                    Inr (\<lparr>input_rows = nrows df,
                          output_rows = nrows df_transformed,
                          duration_seconds = duration,
                          rows_per_second =
                            (if duration > 0 then of_nat (nrows df_transformed) / duration else 0),
                          source = source_key,
                          destination = destination_key\<rparr>, s'))))"

section \<open>Instances for the worked examples\<close>

text \<open>
  The examples need an engine and a storage client to be closed terms. The delegated
  computations of \<open>bare_engine\<close> all raise, and its parser takes the words of a
  condition that begin with a letter as the names it looks up, which is right for
  conditions such as \<^verbatim>\<open>value > 0\<close>; \<open>memory_cloud\<close> keeps frames themselves under
  their keys, so its codecs have nothing to do.
\<close>

fun split_words :: "string \<Rightarrow> string \<Rightarrow> string list" where
  "split_words w [] = (if w = [] then [] else [w])"
| "split_words w (c # cs) =
     (if c = CHR '' '' then (if w = [] then split_words [] cs else w # split_words [] cs)
      else split_words (w @ [c]) cs)"

definition simple_names :: "string \<Rightarrow> label list" where
  "simple_names expr =
     map Some
       (filter
          (\<lambda>w. case w of
                 [] \<Rightarrow> False
               | c # cs \<Rightarrow> c \<in> set ''abcdefghijklmnopqrstuvwxyz_ABCDEFGHIJKLMNOPQRSTUVWXYZ'')
          (split_words [] expr))"

definition bare_engine :: engine where
  "bare_engine =
     \<lparr>condition_names = simple_names,
      eval_query = (\<lambda>t c. Inl OtherError),
      agg_groups = (\<lambda>t g a. Inl OtherError),
      astype = (\<lambda>c ty. Inl OtherError)\<rparr>"

definition memory_cloud :: "((string \<times> table) list, table) cloud" where
  "memory_cloud =
     \<lparr>get_object = (\<lambda>s k. case map_of s k of None \<Rightarrow> Inl ClientError | Some b \<Rightarrow> Inr b),
      put_object = (\<lambda>s k b. Inr ((k, b) # s)),
      read_csv = Inr, read_parquet = Inr, read_json = Inr,
      to_parquet = Inr, to_csv = Inr, to_json = Inr\<rparr>"

definition cfg :: "string \<Rightarrow> transform_cfg" where
  "cfg opn =
     \<lparr>operation = Some opn, columns = None, value_arg = None, mapping = None,
      condition = None, group_by = None, aggregations = None, name = None,
      column = None, dtype = None\<rparr>"

definition numbers :: "rat list \<Rightarrow> cell list" where
  "numbers xs = map Num xs"

text \<open>The frame of the specification's end-to-end scenario.\<close>

definition sample :: table where
  "sample =
     \<lparr>nrows = 3,
      cols = [(Some ''id'', numbers [1, 2, 3]), (Some ''value'', [Num 5, Num (- 3), Null])]\<rparr>"

text \<open>The columns of the specification's two validation examples.\<close>

definition marks :: table where
  "marks = \<lparr>nrows = 6, cols = [(Some ''k'', numbers [1, 1, 2, 3, 3, 3])]\<rparr>"

definition readings :: table where
  "readings = \<lparr>nrows = 5, cols = [(Some ''v'', numbers [- 1, 0, 5, 10, 11])]\<rparr>"

definition rule_of :: "string \<Rightarrow> string \<Rightarrow> rule" where
  "rule_of ty c =
     \<lparr>rule_type = Some ty, rule_column = Some c, min_val = None, max_val = None,
      error = None\<rparr>"

section \<open>Properties of the transform engine\<close>

lemma transform_no_operations:
  "transform E h df None = (h @ [h ! df], Inr (length h))"
  "transform E h df (Some []) = (h @ [h ! df], Inr (length h))"
  by (simp_all add: transform_def)

text \<open>
  Claim C1. With an empty or an omitted transformation list, the transform engine returns
  a frame equal to its input: it returns the copy it made, and nothing has touched it.
\<close>

theorem transform_empty_identity:
  "returned (transform E h df None) = Inr (h ! df)
   \<and> returned (transform E h df (Some [])) = Inr (h ! df)"
  by (simp add: transform_no_operations returned_def)

lemma apply_transform_unknown:
  "operation tr \<notin> Some ` supported_operations \<Longrightarrow> apply_transform E tr h cur = (h, Inr cur)"
  by (auto simp: apply_transform_def supported_operations_def)

lemma run_transforms_skip:
  "operation tr \<notin> Some ` supported_operations \<Longrightarrow>
   run_transforms E (xs @ tr # ys) h cur = run_transforms E (xs @ ys) h cur"
  by (induction xs arbitrary: h cur)
     (auto simp: apply_transform_unknown split: prod.splits sum.splits)

text \<open>
  Claim C3. A descriptor whose operation is none of the seven supported kinds (or is
  absent) is a no-op: a list that contains it gives the same store and the same outcome
  as the list without it, and on its own it returns a frame equal to the input, without
  an exception.
\<close>

theorem transform_unknown_operation_ignored:
  assumes "operation tr \<notin> Some ` supported_operations"
  shows "transform E h df (Some (xs @ tr # ys)) = transform E h df (Some (xs @ ys))
       \<and> returned (transform E h df (Some [tr])) = Inr (h ! df)"
proof -
  have skip: "run_transforms E (xs @ tr # ys) h' c = run_transforms E (xs @ ys) h' c" for h' c
    using assms by (rule run_transforms_skip)
  have removed: "transform E h df (Some (xs @ tr # ys)) = transform E h df (Some (xs @ ys))"
    by (cases "xs @ ys = []")
       (simp_all add: transform_def Let_def skip apply_transform_unknown[OF assms])
  have alone: "returned (transform E h df (Some [tr])) = Inr (h ! df)"
    by (simp add: transform_def returned_def apply_transform_unknown[OF assms])
  from removed alone show ?thesis by simp
qed

theorem transform_unknown_operation_ignored_witness:
  "operation (cfg ''sort'') \<notin> Some ` supported_operations
   \<and> transform bare_engine [sample] 0
         (Some ([cfg ''fill_nulls''] @ cfg ''sort'' # [cfg ''add_column'']))
       = transform bare_engine [sample] 0 (Some ([cfg ''fill_nulls''] @ [cfg ''add_column'']))
   \<and> returned (transform bare_engine [sample] 0 (Some [cfg ''sort''])) = Inr sample"
proof -
  have unknown: "operation (cfg ''sort'') \<notin> Some ` supported_operations"
    by (simp add: cfg_def supported_operations_def)
  show ?thesis
    using unknown
      transform_unknown_operation_ignored
        [OF unknown, of bare_engine "[sample]" 0 "[cfg ''fill_nulls'']" "[cfg ''add_column'']"]
    by simp
qed

subsection \<open>The caller's frame\<close>

text \<open>
  No step writes below the reference it holds: a new frame goes to the end of the store
  and an in-place update goes to the current reference, which after \<^verbatim>\<open>df.copy()\<close>
  is never one of the caller's.
\<close>

lemma store_new_frame:
  "store_new h r = (h', x) \<Longrightarrow> n \<le> length h \<Longrightarrow>
   take n h' = take n h \<and> length h \<le> length h'
   \<and> (\<forall>c. x = Inr c \<longrightarrow> length h \<le> c \<and> c < length h')"
  by (auto simp: store_new_def split: sum.splits)

lemma store_at_frame:
  "store_at h a r = (h', x) \<Longrightarrow> n \<le> a \<Longrightarrow> a < length h \<Longrightarrow>
   take n h' = take n h \<and> length h \<le> length h'
   \<and> (\<forall>c. x = Inr c \<longrightarrow> n \<le> c \<and> c < length h')"
  by (auto simp: store_at_def split: sum.splits)

lemma apply_transform_frame:
  assumes "apply_transform E tr h cur = (h', x)" "n \<le> cur" "cur < length h"
  shows "take n h' = take n h \<and> length h \<le> length h'
       \<and> (\<forall>c. x = Inr c \<longrightarrow> n \<le> c \<and> c < length h')"
  using assms
  unfolding apply_transform_def
  by (auto split: if_splits dest!: store_new_frame[where n=n] store_at_frame[where n=n])

lemma run_transforms_frame:
  "run_transforms E trs h cur = (h', x) \<Longrightarrow> n \<le> cur \<Longrightarrow> cur < length h \<Longrightarrow>
   take n h' = take n h \<and> (\<forall>c. x = Inr c \<longrightarrow> n \<le> c \<and> c < length h')"
proof (induction trs arbitrary: h cur)
  case Nil
  then show ?case by auto
next
  case (Cons tr trs)
  obtain h1 x1 where step: "apply_transform E tr h cur = (h1, x1)"
    by (cases "apply_transform E tr h cur")
  from apply_transform_frame[OF step Cons.prems(2,3)]
  have kept: "take n h1 = take n h" "\<forall>c. x1 = Inr c \<longrightarrow> n \<le> c \<and> c < length h1"
    by auto
  show ?case
  proof (cases x1)
    case (Inl e)
    with step Cons.prems(1) kept show ?thesis by auto
  next
    case (Inr c)
    with step Cons.prems(1) have "run_transforms E trs h1 c = (h', x)" by simp
    from Cons.IH[OF this] kept Inr show ?thesis by auto
  qed
qed

lemma transform_frame:
  "transform E h df trs = (h', x) \<Longrightarrow>
   take (length h) h' = h \<and> (\<forall>c. x = Inr c \<longrightarrow> length h \<le> c \<and> c < length h')"
  unfolding transform_def Let_def
  by (auto split: option.splits if_splits dest!: run_transforms_frame[where n="length h"])

text \<open>
  Claim C10. The transform engine never changes the caller's frame: whether the call
  returns or raises partway, the frame at the caller's reference is what it was, as is
  every other frame that existed before the call; a returned frame is a different
  object, since the engine works on a copy.
\<close>

theorem transform_leaves_input_unchanged:
  assumes "df < length h"
  shows "fst (transform E h df trs) ! df = h ! df
       \<and> take (length h) (fst (transform E h df trs)) = h
       \<and> (\<forall>r. snd (transform E h df trs) = Inr r \<longrightarrow> r \<noteq> df)"
proof -
  obtain h' x where run: "transform E h df trs = (h', x)"
    by (cases "transform E h df trs")
  from transform_frame[OF run]
  have kept: "take (length h) h' = h" and fresh: "\<forall>c. x = Inr c \<longrightarrow> length h \<le> c"
    by auto
  from assms have "take (length h) h' ! df = h' ! df" by simp
  with kept have "h' ! df = h ! df" by simp
  with kept fresh assms run show ?thesis by auto
qed

theorem transform_leaves_input_unchanged_witness:
  "(0::nat) < length [sample]
   \<and> snd (transform bare_engine [sample] 0
         (Some [(cfg ''add_column'')\<lparr>name := Some ''id'', value_arg := Some (Str ''x'')\<rparr>,
                (cfg ''convert_type'')\<lparr>column := Some ''id''\<rparr>])) = Inl OtherError
   \<and> fst (transform bare_engine [sample] 0
         (Some [(cfg ''add_column'')\<lparr>name := Some ''id'', value_arg := Some (Str ''x'')\<rparr>,
                (cfg ''convert_type'')\<lparr>column := Some ''id''\<rparr>])) ! 0 = sample
   \<and> snd (transform bare_engine [sample] 0
         (Some [(cfg ''add_column'')\<lparr>name := Some ''id'', value_arg := Some (Str ''x'')\<rparr>])) = Inr 1
   \<and> fst (transform bare_engine [sample] 0
         (Some [(cfg ''add_column'')\<lparr>name := Some ''id'', value_arg := Some (Str ''x'')\<rparr>])) ! 1
       = sample\<lparr>cols := [(Some ''id'', [Str ''x'', Str ''x'', Str ''x'']),
                            (Some ''value'', [Num 5, Num (- 3), Null])]\<rparr>
   \<and> fst (transform bare_engine [sample] 0
         (Some [(cfg ''add_column'')\<lparr>name := Some ''id'', value_arg := Some (Str ''x'')\<rparr>])) ! 0
       = sample"
proof -
  have valid: "(0::nat) < length [sample]" by simp
  have run: "transform bare_engine [sample] 0
      (Some [(cfg ''add_column'')\<lparr>name := Some ''id'', value_arg := Some (Str ''x'')\<rparr>])
    = ([sample, sample\<lparr>cols := [(Some ''id'', [Str ''x'', Str ''x'', Str ''x'']),
                            (Some ''value'', [Num 5, Num (- 3), Null])]\<rparr>], Inr 1)"
    by (simp add: transform_def apply_transform_def cfg_def store_at_def setitem_def
        labels_def sample_def numbers_def numeral_3_eq_3)
  have stop: "snd (transform bare_engine [sample] 0
      (Some [(cfg ''add_column'')\<lparr>name := Some ''id'', value_arg := Some (Str ''x'')\<rparr>,
             (cfg ''convert_type'')\<lparr>column := Some ''id''\<rparr>])) = Inl OtherError"
    by (simp add: transform_def apply_transform_def cfg_def store_at_def setitem_def
        convert_column_def bare_engine_def labels_def sample_def numbers_def)
  show ?thesis
    using valid stop run
      transform_leaves_input_unchanged [OF valid, of bare_engine
        "Some [(cfg ''add_column'')\<lparr>name := Some ''id'', value_arg := Some (Str ''x'')\<rparr>,
               (cfg ''convert_type'')\<lparr>column := Some ''id''\<rparr>]"]
    by simp
qed

subsection \<open>Renaming\<close>

lemma labels_rename: "labels (rename t m) = map (relabel m) (labels t)"
  by (simp add: labels_def rename_def comp_def case_prod_beta)

lemma cells_rename: "map snd (cols (rename t m)) = map snd (cols t)"
  by (simp add: rename_def comp_def case_prod_beta)

lemma relabel_untouched: "l \<notin> dom m \<Longrightarrow> relabel m l = l"
  by (auto simp: relabel_def split: option.splits)

lemma transform_rename:
  "operation tr = Some ''rename'' \<Longrightarrow>
   returned (transform E h df (Some [tr])) =
     Inr (rename (h ! df) (case mapping tr of None \<Rightarrow> Map.empty | Some m \<Rightarrow> m))"
  by (simp add: transform_def returned_def apply_transform_def store_new_def nth_append)

text \<open>
  Claim C9, as amended. A \<open>rename\<close> step returns the frame relabelled by the mapping.
  For every frame and mapping the number of columns, the row count and all cells stay
  as they are, and a column whose label is not a key of the mapping keeps its label and
  its position. The set of labels keeps its size, and distinct labels stay distinct, when
  the relabelling is injective on the frame's labels.
\<close>

theorem rename_relabelling:
  assumes "operation tr = Some ''rename''"
    and "m = (case mapping tr of None \<Rightarrow> Map.empty | Some f \<Rightarrow> f)"
  shows "returned (transform E h df (Some [tr])) = Inr (rename (h ! df) m)
       \<and> length (cols (rename t m)) = length (cols t)
       \<and> nrows (rename t m) = nrows t
       \<and> map snd (cols (rename t m)) = map snd (cols t)
       \<and> (\<forall>i < length (cols t). labels t ! i \<notin> dom m \<longrightarrow> labels (rename t m) ! i = labels t ! i)
       \<and> (inj_on (relabel m) (set (labels t)) \<longrightarrow>
            card (set (labels (rename t m))) = card (set (labels t))
            \<and> (distinct (labels t) \<longrightarrow> distinct (labels (rename t m))))"
proof -
  have a: "returned (transform E h df (Some [tr])) = Inr (rename (h ! df) m)"
    using assms by (simp add: transform_rename)
  have b: "length (cols (rename t m)) = length (cols t)" "nrows (rename t m) = nrows t"
    by (simp_all add: rename_def)
  have c: "\<forall>i < length (cols t). labels t ! i \<notin> dom m \<longrightarrow> labels (rename t m) ! i = labels t ! i"
  proof (intro allI impI)
    fix i assume "i < length (cols t)" "labels t ! i \<notin> dom m"
    moreover have "length (labels t) = length (cols t)" by (simp add: labels_def)
    ultimately show "labels (rename t m) ! i = labels t ! i"
      by (simp add: labels_rename relabel_untouched)
  qed
  have d: "card (set (labels (rename t m))) = card (set (labels t))"
    if "inj_on (relabel m) (set (labels t))"
    using that by (simp add: labels_rename card_image)
  have e: "distinct (labels (rename t m))"
    if "inj_on (relabel m) (set (labels t))" "distinct (labels t)"
    using that by (simp add: labels_rename distinct_map)
  from a b c d e cells_rename[of t m] show ?thesis by blast
qed

text \<open>
  The relabelling need not be a bijection: mapping \<open>id\<close> to \<open>value\<close> in a frame that
  already has a column \<open>value\<close> leaves two columns with one label: the relabelling
  is not injective on the frame's labels, and the set of labels shrinks from two to one.
\<close>

theorem rename_collision_counterexample:
  "returned (transform bare_engine [sample] 0
      (Some [(cfg ''rename'')\<lparr>mapping := Some [Some ''id'' \<mapsto> Some ''value'']\<rparr>]))
     = Inr (sample\<lparr>cols := [(Some ''value'', numbers [1, 2, 3]),
                           (Some ''value'', [Num 5, Num (- 3), Null])]\<rparr>)
   \<and> card (set (labels sample)) = 2
   \<and> card (set (labels (sample\<lparr>cols := [(Some ''value'', numbers [1, 2, 3]),
                           (Some ''value'', [Num 5, Num (- 3), Null])]\<rparr>))) = 1
   \<and> \<not> inj_on (relabel [Some ''id'' \<mapsto> Some ''value'']) (set (labels sample))"
  by (simp add: transform_def returned_def apply_transform_def store_new_def cfg_def rename_def
      relabel_def sample_def labels_def nth_append)

theorem rename_relabelling_witness:
  "operation ((cfg ''rename'')\<lparr>mapping := Some [Some ''id'' \<mapsto> Some ''key'']\<rparr>) = Some ''rename''
   \<and> returned (transform bare_engine [sample] 0
        (Some [(cfg ''rename'')\<lparr>mapping := Some [Some ''id'' \<mapsto> Some ''key'']\<rparr>]))
       = Inr (sample\<lparr>cols := [(Some ''key'', numbers [1, 2, 3]),
                             (Some ''value'', [Num 5, Num (- 3), Null])]\<rparr>)
   \<and> (1::nat) < length (cols sample)
   \<and> labels sample ! 1 \<notin> dom [Some ''id'' \<mapsto> Some ''key'']
   \<and> labels (rename sample [Some ''id'' \<mapsto> Some ''key'']) ! 1 = labels sample ! 1
   \<and> inj_on (relabel [Some ''id'' \<mapsto> Some ''key'']) (set (labels sample))
   \<and> distinct (labels sample)
   \<and> distinct (labels (rename sample [Some ''id'' \<mapsto> Some ''key'']))
   \<and> card (set (labels (rename sample [Some ''id'' \<mapsto> Some ''key'']))) = card (set (labels sample))"
proof -
  let ?tr = "(cfg ''rename'')\<lparr>mapping := Some [Some ''id'' \<mapsto> Some ''key'']\<rparr>"
  have op: "operation ?tr = Some ''rename''" by (simp add: cfg_def)
  have m: "[Some ''id'' \<mapsto> Some ''key''] = (case mapping ?tr of None \<Rightarrow> Map.empty | Some f \<Rightarrow> f)"
    by (simp add: cfg_def)
  have inj: "inj_on (relabel [Some ''id'' \<mapsto> Some ''key'']) (set (labels sample))"
    by (simp add: relabel_def sample_def labels_def)
  have dist: "distinct (labels sample)" by (simp add: sample_def labels_def)
  have one: "(1::nat) < length (cols sample)" by (simp add: sample_def)
  have out: "labels sample ! 1 \<notin> dom [Some ''id'' \<mapsto> Some ''key'']"
    by (simp add: sample_def labels_def)
  have r: "rename sample [Some ''id'' \<mapsto> Some ''key''] = sample\<lparr>cols := [(Some ''key'', numbers [1, 2, 3]),
                             (Some ''value'', [Num 5, Num (- 3), Null])]\<rparr>"
    by (simp add: rename_def relabel_def sample_def)
  show ?thesis
    using op inj dist one out rename_relabelling [OF op m, of bare_engine "[sample]" 0 sample]
    by (simp add: r)
qed

subsection \<open>Labels that no column carries\<close>






section \<open>Properties of the quality validator\<close>

lemma check_rule_unknown:
  "rule_type r \<notin> Some ` known_rule_types \<Longrightarrow> check_rule df r res = Inr res"
  by (auto simp: check_rule_def known_rule_types_def)

lemma check_rule_not_null:
  "rule_type r = Some ''not_null'' \<Longrightarrow>
   check_rule df r res =
     (case getitem df (rule_column r) of
        Inl e \<Rightarrow> Inl e
      | Inr col \<Rightarrow>
          if length (filter isnull col) = 0 then Inr (fst res @ [r], snd res)
          else Inr (fst res, snd res @
                 [r\<lparr>error := Some (string_of_nat (length (filter isnull col)) @ '' null values found'')\<rparr>]))"
  by (simp add: check_rule_def Let_def split: sum.splits)

lemma check_rule_unique:
  "rule_type r = Some ''unique'' \<Longrightarrow>
   check_rule df r res =
     (case getitem df (rule_column r) of
        Inl e \<Rightarrow> Inl e
      | Inr col \<Rightarrow>
          if length (filter id (duplicated [] col)) = 0 then Inr (fst res @ [r], snd res)
          else Inr (fst res, snd res @
                 [r\<lparr>error := Some (string_of_nat (length (filter id (duplicated [] col))) @ '' duplicates found'')\<rparr>]))"
  by (simp add: check_rule_def Let_def split: sum.splits)

lemma check_rule_range:
  "rule_type r = Some ''range'' \<Longrightarrow>
   check_rule df r res =
     (case out_of_range df (rule_column r) (min_val r) (max_val r) of
        Inl e \<Rightarrow> Inl e
      | Inr out \<Rightarrow>
          if nrows out = 0 then Inr (fst res @ [r], snd res)
          else Inr (fst res, snd res @
                 [r\<lparr>error := Some (string_of_nat (nrows out) @ '' values out of range'')\<rparr>]))"
  by (simp add: check_rule_def Let_def split: sum.splits)

lemma check_rule_cases:
  assumes "check_rule df r res = Inr res'"
  shows "(rule_type r \<notin> Some ` known_rule_types \<and> res' = res)
       \<or> (rule_type r \<in> Some ` known_rule_types
           \<and> (res' = (fst res @ [r], snd res)
               \<or> (\<exists>msg. res' = (fst res, snd res @ [r\<lparr>error := Some msg\<rparr>]))))"
proof -
  consider (n) "rule_type r = Some ''not_null''" | (u) "rule_type r = Some ''unique''"
    | (g) "rule_type r = Some ''range''" | (o) "rule_type r \<notin> Some ` known_rule_types"
    by (auto simp: known_rule_types_def)
  then show ?thesis
  proof cases
    case n
    then have k: "rule_type r \<in> Some ` known_rule_types" by (simp add: known_rule_types_def)
    show ?thesis
    proof (cases "getitem df (rule_column r)")
      case (Inl e)
      with assms n show ?thesis by (simp add: check_rule_not_null)
    next
      case (Inr col)
      with assms n have "res' = (fst res @ [r], snd res) \<or> (\<exists>msg. res' = (fst res, snd res @ [r\<lparr>error := Some msg\<rparr>]))"
        by (cases "length (filter isnull col) = 0") (auto simp: check_rule_not_null)
      with k show ?thesis by blast
    qed
  next
    case u
    then have k: "rule_type r \<in> Some ` known_rule_types" by (simp add: known_rule_types_def)
    show ?thesis
    proof (cases "getitem df (rule_column r)")
      case (Inl e)
      with assms u show ?thesis by (simp add: check_rule_unique)
    next
      case (Inr col)
      with assms u have "res' = (fst res @ [r], snd res) \<or> (\<exists>msg. res' = (fst res, snd res @ [r\<lparr>error := Some msg\<rparr>]))"
        by (cases "length (filter id (duplicated [] col)) = 0") (auto simp: check_rule_unique)
      with k show ?thesis by blast
    qed
  next
    case g
    then have k: "rule_type r \<in> Some ` known_rule_types" by (simp add: known_rule_types_def)
    show ?thesis
    proof (cases "out_of_range df (rule_column r) (min_val r) (max_val r)")
      case (Inl e)
      with assms g show ?thesis by (simp add: check_rule_range)
    next
      case (Inr out)
      with assms g have "res' = (fst res @ [r], snd res) \<or> (\<exists>msg. res' = (fst res, snd res @ [r\<lparr>error := Some msg\<rparr>]))"
        by (cases "nrows out = 0") (auto simp: check_rule_range)
      with k show ?thesis by blast
    qed
  next
    case o
    with assms show ?thesis by (simp add: check_rule_unknown)
  qed
qed


lemma check_rules_skip:
  "rule_type r \<notin> Some ` known_rule_types \<Longrightarrow>
   check_rules df (xs @ r # ys) res = check_rules df (xs @ ys) res"
  by (induction xs arbitrary: res) (auto simp: check_rule_unknown split: sum.splits)

lemma check_rule_count:
  assumes "check_rule df r res = Inr res'"
  shows "length (fst res') + length (snd res')
       = length (fst res) + length (snd res)
         + (if rule_type r \<in> Some ` known_rule_types then 1 else 0)"
    and "length (fst res') \<le> Suc (length (fst res))"
  using check_rule_cases[OF assms] by auto

lemma check_rule_types:
  assumes "check_rule df r res = Inr res'"
    and "\<forall>x \<in> set (fst res) \<union> set (snd res). rule_type x \<in> Some ` known_rule_types"
  shows "\<forall>x \<in> set (fst res') \<union> set (snd res'). rule_type x \<in> Some ` known_rule_types"
  using check_rule_cases[OF assms(1)] assms(2) by auto

lemma check_rules_count:
  "check_rules df rs res = Inr res' \<Longrightarrow>
   length (fst res') + length (snd res')
     = length (fst res) + length (snd res)
       + length (filter (\<lambda>r. rule_type r \<in> Some ` known_rule_types) rs)
   \<and> length (fst res') \<le> length (fst res) + length rs"
proof (induction rs arbitrary: res)
  case Nil
  then show ?case by simp
next
  case (Cons r rs)
  then obtain res1 where s: "check_rule df r res = Inr res1" and t: "check_rules df rs res1 = Inr res'"
    by (auto split: sum.splits)
  from check_rule_count[OF s] Cons.IH[OF t] show ?case by simp
qed

lemma check_rules_types:
  "check_rules df rs res = Inr res' \<Longrightarrow>
   \<forall>x \<in> set (fst res) \<union> set (snd res). rule_type x \<in> Some ` known_rule_types \<Longrightarrow>
   \<forall>x \<in> set (fst res') \<union> set (snd res'). rule_type x \<in> Some ` known_rule_types"
proof (induction rs arbitrary: res)
  case Nil
  then show ?case by simp
next
  case (Cons r rs)
  then obtain res1 where s: "check_rule df r res = Inr res1" and t: "check_rules df rs res1 = Inr res'"
    by (auto split: sum.splits)
  from Cons.IH[OF t check_rule_types[OF s Cons.prems(2)]] show ?case .
qed

lemma validate_report:
  assumes "validate_data_quality df rules = Inr rep"
  shows "check_rules df rules ([], []) = Inr (passed rep, failed rep)"
    and "total_rules rep = length rules"
    and "pass_rate rep = (if rules \<noteq> [] then of_nat (length (passed rep)) / of_nat (length rules) else 0)"
  using assms by (auto simp: validate_data_quality_def split: sum.splits)

text \<open>
  Claim C2. Validating with no rules returns a report whose pass rate is 0, with no
  division fault. Whenever validation returns a report, \<open>total_rules\<close> is the length of
  the rule list, the pass rate of a non-empty list is the number of passed rules divided
  by \<open>total_rules\<close>, and the pass rate lies between 0 and 1.
\<close>

theorem pass_rate_bounds:
  "validate_data_quality df [] = Inr \<lparr>passed = [], failed = [], total_rules = 0, pass_rate = 0\<rparr>
   \<and> (validate_data_quality df rules = Inr rep \<longrightarrow>
        total_rules rep = length rules
        \<and> (rules \<noteq> [] \<longrightarrow> pass_rate rep = of_nat (length (passed rep)) / of_nat (total_rules rep))
        \<and> (rules = [] \<longrightarrow> pass_rate rep = 0)
        \<and> 0 \<le> pass_rate rep \<and> pass_rate rep \<le> 1)"
proof -
  have e: "validate_data_quality df [] = Inr \<lparr>passed = [], failed = [], total_rules = 0, pass_rate = 0\<rparr>"
    by (simp add: validate_data_quality_def)
  have g: "total_rules rep = length rules
        \<and> (rules \<noteq> [] \<longrightarrow> pass_rate rep = of_nat (length (passed rep)) / of_nat (total_rules rep))
        \<and> (rules = [] \<longrightarrow> pass_rate rep = 0)
        \<and> 0 \<le> pass_rate rep \<and> pass_rate rep \<le> 1"
    if v: "validate_data_quality df rules = Inr rep"
  proof -
    note r = validate_report[OF v]
    from check_rules_count[OF r(1)] have le: "length (passed rep) \<le> length rules" by simp
    then have "(of_nat (length (passed rep)) :: rat) \<le> of_nat (length rules)" by simp
    then have "rules \<noteq> [] \<Longrightarrow> (of_nat (length (passed rep)) :: rat) / of_nat (length rules) \<le> 1"
      by (simp add: divide_le_eq_1)
    with r(2,3) show ?thesis by auto
  qed
  from e g show ?thesis by blast
qed

text \<open>
  Claim C4. A rule whose type is none of \<open>not_null\<close>, \<open>unique\<close>, \<open>range\<close> (or is
  absent) is skipped: checking it raises nothing and changes neither list, so the loop
  gives the same lists as without it. In a report for a list that contains it, it is in
  neither the passed nor the failed list, \<open>total_rules\<close> still counts it, and so the two
  lists together are shorter than \<open>total_rules\<close>.
\<close>

theorem unknown_rule_skipped:
  assumes "rule_type r \<notin> Some ` known_rule_types"
  shows "check_rule df r res = Inr res
       \<and> check_rules df (xs @ r # ys) res = check_rules df (xs @ ys) res
       \<and> validate_data_quality df [r] = Inr \<lparr>passed = [], failed = [], total_rules = 1, pass_rate = 0\<rparr>
       \<and> (validate_data_quality df (xs @ r # ys) = Inr rep \<longrightarrow>
            r \<notin> set (passed rep) \<and> r \<notin> set (failed rep)
            \<and> total_rules rep = length (xs @ r # ys)
            \<and> length (passed rep) + length (failed rep) < total_rules rep)"
proof -
  have a: "check_rule df r res = Inr res" for res
    using assms by (rule check_rule_unknown)
  have b: "check_rules df (xs @ r # ys) res = check_rules df (xs @ ys) res"
    using assms by (rule check_rules_skip)
  have c: "validate_data_quality df [r] = Inr \<lparr>passed = [], failed = [], total_rules = 1, pass_rate = 0\<rparr>"
    by (simp add: validate_data_quality_def a)
  have d: "r \<notin> set (passed rep) \<and> r \<notin> set (failed rep)
            \<and> total_rules rep = length (xs @ r # ys)
            \<and> length (passed rep) + length (failed rep) < total_rules rep"
    if v: "validate_data_quality df (xs @ r # ys) = Inr rep"
  proof -
    note rp = validate_report[OF v]
    from check_rules_types[OF rp(1)]
    have "\<forall>x \<in> set (passed rep) \<union> set (failed rep). rule_type x \<in> Some ` known_rule_types"
      by simp
    with assms have notin: "r \<notin> set (passed rep) \<and> r \<notin> set (failed rep)" by blast
    from check_rules_count[OF rp(1)] assms
    have "length (passed rep) + length (failed rep)
        = length (filter (\<lambda>r. rule_type r \<in> Some ` known_rule_types) xs)
          + length (filter (\<lambda>r. rule_type r \<in> Some ` known_rule_types) ys)"
      by simp
    with length_filter_le[of "\<lambda>r. rule_type r \<in> Some ` known_rule_types" xs]
      length_filter_le[of "\<lambda>r. rule_type r \<in> Some ` known_rule_types" ys]
    have "length (passed rep) + length (failed rep) \<le> length xs + length ys"
      by linarith
    then have "length (passed rep) + length (failed rep) < length (xs @ r # ys)" by simp
    with notin rp(2) show ?thesis by simp
  qed
  from a b c d show ?thesis by blast
qed

subsection \<open>The \<open>unique\<close> rule\<close>

lemma duplicated_count_add:
  "length (filter id (duplicated seen xs)) + card (set xs - set seen) = length xs"
proof (induction xs arbitrary: seen)
  case Nil
  show ?case by simp
next
  case (Cons x xs)
  note IH = Cons.IH[of "x # seen"]
  have len: "length (x # xs) = Suc (length xs)" by simp
  show ?case
  proof (cases "x \<in> set seen")
    case True
    have "set (x # xs) - set seen = set xs - set (x # seen)"
      using True by auto
    then have c: "card (set (x # xs) - set seen) = card (set xs - set (x # seen))"
      by (simp only:)
    have d: "length (filter id (duplicated seen (x # xs)))
           = Suc (length (filter id (duplicated (x # seen) xs)))"
      using True by simp
    from c d len IH show ?thesis by linarith
  next
    case False
    have s: "set (x # xs) - set seen = insert x (set xs - set (x # seen))"
      using False by auto
    have "card (insert x (set xs - set (x # seen))) = Suc (card (set xs - set (x # seen)))"
      by (rule card_insert_disjoint) simp_all
    then have c: "card (set (x # xs) - set seen) = Suc (card (set xs - set (x # seen)))"
      by (simp only: s)
    have d: "length (filter id (duplicated seen (x # xs)))
           = length (filter id (duplicated (x # seen) xs))"
      using False by simp
    from c d len IH show ?thesis by linarith
  qed
qed

lemma duplicated_count:
  "length (filter id (duplicated [] xs)) = length xs - card (set xs)"
  using duplicated_count_add[of "[]" xs] by simp


lemma repeats_sum:
  "(\<Sum>v \<in> set xs. count_list xs v - 1) = length xs - card (set xs)"
proof -
  have "(\<Sum>v \<in> set xs. count_list xs v - 1) = (\<Sum>v \<in> set xs. count_list xs v) - (\<Sum>v \<in> set xs. 1)"
  proof (rule sum_subtractf_nat)
    fix v assume "v \<in> set xs"
    then have "count_list xs v \<noteq> 0" by (simp add: count_list_0_iff)
    then show "1 \<le> count_list xs v" by linarith
  qed
  also have "\<dots> = length xs - card (set xs)"
    by (simp add: sum_count_set)
  finally show ?thesis .
qed


lemma no_repeat_iff_distinct: "length xs - card (set xs) = 0 \<longleftrightarrow> distinct xs"
proof
  assume "length xs - card (set xs) = 0"
  with card_length[of xs] have "card (set xs) = length xs" by linarith
  then show "distinct xs" by (rule card_distinct)
next
  assume "distinct xs"
  then have "card (set xs) = length xs" by (rule distinct_card)
  then show "length xs - card (set xs) = 0" by simp
qed

text \<open>
  Claim C5. For a \<open>unique\<close> rule on a column that exists, the duplicate count \<open>n\<close> is
  the number of entries beyond the first occurrence of each value, the rule passes iff
  \<open>n\<close> is zero (iff the column has no repeated value), and a failing rule gets the
  message with \<open>n\<close>. For the values 1, 1, 2, 3, 3, 3 the count is 3.
\<close>

theorem unique_rule_counts_repeats:
  assumes "rule_type r = Some ''unique''"
    and "getitem df (rule_column r) = Inr col"
    and "n = length (filter id (duplicated [] col))"
  shows "n = (\<Sum>v \<in> set col. count_list col v - 1)
       \<and> (n = 0 \<longleftrightarrow> distinct col)
       \<and> check_rule df r res =
           (if n = 0 then Inr (fst res @ [r], snd res)
            else Inr (fst res, snd res @ [r\<lparr>error := Some (string_of_nat n @ '' duplicates found'')\<rparr>]))
       \<and> length (filter id (duplicated [] (numbers [1, 1, 2, 3, 3, 3]))) = 3"
proof -
  have n: "n = length col - card (set col)"
    unfolding assms(3) by (rule duplicated_count)
  have a: "n = (\<Sum>v \<in> set col. count_list col v - 1)"
    unfolding n by (rule repeats_sum[symmetric])
  have b: "n = 0 \<longleftrightarrow> distinct col"
    unfolding n by (rule no_repeat_iff_distinct)
  have c: "check_rule df r res =
           (if n = 0 then Inr (fst res @ [r], snd res)
            else Inr (fst res, snd res @ [r\<lparr>error := Some (string_of_nat n @ '' duplicates found'')\<rparr>]))"
    unfolding assms(3) by (simp add: check_rule_unique[OF assms(1)] assms(2))
  have d: "length (filter id (duplicated [] (numbers [1, 1, 2, 3, 3, 3]))) = 3"
    by (simp add: numbers_def)
  from a b c d show ?thesis by blast
qed

lemma marks_run:
  "validate_data_quality marks [rule_of ''unique'' ''k'']
     = Inr \<lparr>passed = [], failed = [(rule_of ''unique'' ''k'')\<lparr>error := Some ''3 duplicates found''\<rparr>],
            total_rules = 1, pass_rate = 0\<rparr>"
  by (simp add: validate_data_quality_def check_rule_def marks_def rule_of_def getitem_def
      numbers_def string_of_nat.simps digit_def)

theorem unique_rule_counts_repeats_witness:
  "rule_type (rule_of ''unique'' ''k'') = Some ''unique''
   \<and> getitem marks (rule_column (rule_of ''unique'' ''k'')) = Inr (numbers [1, 1, 2, 3, 3, 3])
   \<and> (3::nat) = (\<Sum>v \<in> set (numbers [1, 1, 2, 3, 3, 3]). count_list (numbers [1, 1, 2, 3, 3, 3]) v - 1)
   \<and> \<not> distinct (numbers [1, 1, 2, 3, 3, 3])
   \<and> check_rule marks (rule_of ''unique'' ''k'') ([], [])
       = Inr ([], [(rule_of ''unique'' ''k'')\<lparr>error := Some ''3 duplicates found''\<rparr>])
   \<and> validate_data_quality marks [rule_of ''unique'' ''k'']
       = Inr \<lparr>passed = [], failed = [(rule_of ''unique'' ''k'')\<lparr>error := Some ''3 duplicates found''\<rparr>],
              total_rules = 1, pass_rate = 0\<rparr>"
proof -
  have t: "rule_type (rule_of ''unique'' ''k'') = Some ''unique''" by (simp add: rule_of_def)
  have g: "getitem marks (rule_column (rule_of ''unique'' ''k'')) = Inr (numbers [1, 1, 2, 3, 3, 3])"
    by (simp add: getitem_def marks_def rule_of_def)
  have n: "(3::nat) = length (filter id (duplicated [] (numbers [1, 1, 2, 3, 3, 3])))"
    by (simp add: numbers_def)
  have s: "string_of_nat 3 = ''3''" by (simp add: string_of_nat.simps digit_def)
  show ?thesis
    using t g unique_rule_counts_repeats [OF t g n, of "([], [])"] marks_run
    by (simp add: s)
qed

subsection \<open>The \<open>range\<close> rule\<close>

lemma compare_numeric:
  "\<forall>x \<in> set col. \<not> is_Str x \<Longrightarrow>
   compare_scalar cmp col (Some b) = Inr (map (\<lambda>x. case x of Num a \<Rightarrow> cmp a b | _ \<Rightarrow> False) col)"
  by (simp add: compare_scalar_def)

lemma count_either:
  "length (filter id (map2 (\<or>) (map f xs) (map g xs))) = length (filter (\<lambda>x. f x \<or> g x) xs)"
  by (induction xs) simp_all

lemma nrows_take_rows: "nrows (take_rows m t) = length (filter id m)"
  by (simp add: take_rows_def)

lemma out_of_range_numeric:
  assumes "getitem df l = Inr col" "\<forall>x \<in> set col. \<not> is_Str x"
  shows "\<exists>out. out_of_range df l (Some lo) (Some hi) = Inr out
        \<and> nrows out = length (filter (\<lambda>x. case x of Num a \<Rightarrow> a < lo \<or> hi < a | _ \<Rightarrow> False) col)"
proof -
  let ?f = "\<lambda>x. case x of Num a \<Rightarrow> a < lo | _ \<Rightarrow> False"
  let ?g = "\<lambda>x. case x of Num a \<Rightarrow> a > hi | _ \<Rightarrow> False"
  let ?out = "take_rows (map2 (\<or>) (map ?f col) (map ?g col)) df"
  have o: "out_of_range df l (Some lo) (Some hi) = Inr ?out"
    using assms by (simp add: out_of_range_def compare_numeric)
  have "nrows ?out = length (filter (\<lambda>x. ?f x \<or> ?g x) col)"
    by (simp only: nrows_take_rows count_either)
  also have "(\<lambda>x. ?f x \<or> ?g x) = (\<lambda>x. case x of Num a \<Rightarrow> a < lo \<or> hi < a | _ \<Rightarrow> False)"
    by (rule ext) (simp split: cell.splits)
  finally show ?thesis using o by blast
qed

text \<open>
  Claim C6. For a \<open>range\<close> rule with both bounds on an existing column without strings,
  the violation count \<open>n\<close> is the number of rows whose number is strictly below the
  minimum or strictly above the maximum, the rule passes iff \<open>n\<close> is zero, and a failing
  rule gets the message with \<open>n\<close>. With the bounds 0 and 10 the values - 1, 0, 5, 10, 11
  have 2 violations.
\<close>

theorem range_rule_counts_outside:
  assumes "rule_type r = Some ''range''"
    and "min_val r = Some lo" and "max_val r = Some hi"
    and "getitem df (rule_column r) = Inr col"
    and "\<forall>x \<in> set col. \<not> is_Str x"
    and "n = length (filter (\<lambda>x. case x of Num a \<Rightarrow> a < lo \<or> hi < a | _ \<Rightarrow> False) col)"
  shows "check_rule df r res =
           (if n = 0 then Inr (fst res @ [r], snd res)
            else Inr (fst res, snd res @ [r\<lparr>error := Some (string_of_nat n @ '' values out of range'')\<rparr>]))
       \<and> length (filter (\<lambda>x. case x of Num a \<Rightarrow> a < 0 \<or> 10 < a | _ \<Rightarrow> False)
            (numbers [- 1, 0, 5, 10, 11])) = 2"
proof -
  from out_of_range_numeric[OF assms(4,5), of lo hi] assms(2,3,6)
  obtain out where o: "out_of_range df (rule_column r) (min_val r) (max_val r) = Inr out"
    and c: "nrows out = n"
    by auto
  have a: "check_rule df r res =
           (if n = 0 then Inr (fst res @ [r], snd res)
            else Inr (fst res, snd res @ [r\<lparr>error := Some (string_of_nat n @ '' values out of range'')\<rparr>]))"
    by (simp add: check_rule_range[OF assms(1)] o c)
  have b: "length (filter (\<lambda>x. case x of Num a \<Rightarrow> a < 0 \<or> 10 < a | _ \<Rightarrow> False)
            (numbers [- 1, 0, 5, 10, 11])) = 2"
    by (simp add: numbers_def)
  from a b show ?thesis by blast
qed

lemma readings_run:
  "validate_data_quality readings [(rule_of ''range'' ''v'')\<lparr>min_val := Some 0, max_val := Some 10\<rparr>]
     = Inr \<lparr>passed = [],
            failed = [(rule_of ''range'' ''v'')\<lparr>min_val := Some 0, max_val := Some 10,
                        error := Some ''2 values out of range''\<rparr>],
            total_rules = 1, pass_rate = 0\<rparr>"
  by (simp add: validate_data_quality_def check_rule_def readings_def rule_of_def getitem_def
      out_of_range_def compare_scalar_def take_rows_def
      numbers_def string_of_nat.simps digit_def)


theorem range_rule_counts_outside_witness:
  "rule_type ((rule_of ''range'' ''v'')\<lparr>min_val := Some 0, max_val := Some 10\<rparr>) = Some ''range''
   \<and> min_val ((rule_of ''range'' ''v'')\<lparr>min_val := Some 0, max_val := Some 10\<rparr>) = Some 0
   \<and> max_val ((rule_of ''range'' ''v'')\<lparr>min_val := Some 0, max_val := Some 10\<rparr>) = Some 10
   \<and> getitem readings (rule_column ((rule_of ''range'' ''v'')\<lparr>min_val := Some 0, max_val := Some 10\<rparr>))
       = Inr (numbers [- 1, 0, 5, 10, 11])
   \<and> filter is_Str (numbers [- 1, 0, 5, 10, 11]) = []
   \<and> check_rule readings ((rule_of ''range'' ''v'')\<lparr>min_val := Some 0, max_val := Some 10\<rparr>) ([], [])
       = Inr ([], [(rule_of ''range'' ''v'')\<lparr>min_val := Some 0, max_val := Some 10,
                     error := Some ''2 values out of range''\<rparr>])
   \<and> validate_data_quality readings [(rule_of ''range'' ''v'')\<lparr>min_val := Some 0, max_val := Some 10\<rparr>]
       = Inr \<lparr>passed = [],
              failed = [(rule_of ''range'' ''v'')\<lparr>min_val := Some 0, max_val := Some 10,
                          error := Some ''2 values out of range''\<rparr>],
              total_rules = 1, pass_rate = 0\<rparr>"
proof -
  let ?r = "(rule_of ''range'' ''v'')\<lparr>min_val := Some 0, max_val := Some 10\<rparr>"
  have t: "rule_type ?r = Some ''range''" by (simp add: rule_of_def)
  have lo: "min_val ?r = Some 0" and hi: "max_val ?r = Some 10" by (simp_all add: rule_of_def)
  have g: "getitem readings (rule_column ?r) = Inr (numbers [- 1, 0, 5, 10, 11])"
    by (simp add: getitem_def readings_def rule_of_def)
  have num: "\<forall>x \<in> set (numbers [- 1, 0, 5, 10, 11]). \<not> is_Str x"
    by (simp add: numbers_def)
  have no_strings: "filter is_Str (numbers [- 1, 0, 5, 10, 11]) = []"
    by (simp add: numbers_def)
  have n: "(2::nat) = length (filter (\<lambda>x. case x of Num a \<Rightarrow> a < 0 \<or> 10 < a | _ \<Rightarrow> False)
            (numbers [- 1, 0, 5, 10, 11]))"
    by (simp add: numbers_def)
  have s: "string_of_nat 2 = ''2''" by (simp add: string_of_nat.simps digit_def)
  show ?thesis
    using t lo hi g no_strings
      range_rule_counts_outside [OF t lo hi g num n, of "([], [])"] readings_run
    by (simp add: s)
qed

section \<open>Properties of the pipeline\<close>

lemma run_etl_pipeline_stats:
  assumes "run_etl_pipeline C E s start_time end_time source_key destination_key trs fmt = Inr (st, s')"
  shows "duration_seconds st = of_int (end_time - start_time) / 1000000"
    and "rows_per_second st
         = (if duration_seconds st > 0 then of_nat (output_rows st) / duration_seconds st else 0)"
proof -
  from assms obtain df where e: "extract_from_s3 C s source_key = Inr df"
    by (cases "extract_from_s3 C s source_key") (simp_all add: run_etl_pipeline_def)
  from assms e obtain out where t: "returned (transform E [df] 0 trs) = Inr out"
    by (cases "returned (transform E [df] 0 trs)") (simp_all add: run_etl_pipeline_def)
  from assms e t obtain s1 where l: "load_to_s3 C s out destination_key fmt = Inr s1"
    by (cases "load_to_s3 C s out destination_key fmt") (simp_all add: run_etl_pipeline_def)
  from assms e t l
  have d: "duration_seconds st = of_int (end_time - start_time) / 1000000"
    and o: "output_rows st = nrows out"
    and r: "rows_per_second st
          = (if (of_int (end_time - start_time) / 1000000 :: rat) > 0
             then of_nat (nrows out) / (of_int (end_time - start_time) / 1000000) else 0)"
    by (auto simp: run_etl_pipeline_def Let_def)
  show "duration_seconds st = of_int (end_time - start_time) / 1000000"
    by (rule d)
  show "rows_per_second st
         = (if duration_seconds st > 0 then of_nat (output_rows st) / duration_seconds st else 0)"
    unfolding d o by (rule r)
qed

text \<open>
  Claim C7. In the statistics of a completed run, \<open>rows_per_second\<close> is \<open>output_rows\<close>
  divided by \<open>duration_seconds\<close> when the duration is positive and 0 when the duration is
  0; the duration is the difference of the two clock readings in seconds.
\<close>

theorem throughput_guarded:
  assumes "run_etl_pipeline C E s start_time end_time source_key destination_key trs fmt = Inr (st, s')"
  shows "(duration_seconds st > 0 \<longrightarrow>
            rows_per_second st = of_nat (output_rows st) / duration_seconds st)
       \<and> (duration_seconds st = 0 \<longrightarrow> rows_per_second st = 0)
       \<and> duration_seconds st = of_int (end_time - start_time) / 1000000"
  using run_etl_pipeline_stats[OF assms] by simp



section \<open>Worked examples of the validator and the pipeline\<close>

lemma mixed_run:
  "validate_data_quality marks [rule_of ''unique'' ''k'', rule_of ''checksum'' ''zz'', rule_of ''not_null'' ''k'']
     = Inr \<lparr>passed = [rule_of ''not_null'' ''k''],
            failed = [(rule_of ''unique'' ''k'')\<lparr>error := Some ''3 duplicates found''\<rparr>],
            total_rules = 3, pass_rate = 1 / 3\<rparr>"
  by (simp add: validate_data_quality_def check_rule_def marks_def rule_of_def getitem_def
      numbers_def isnull_def string_of_nat.simps digit_def)

theorem pass_rate_bounds_witness:
  "validate_data_quality marks [rule_of ''unique'' ''k'', rule_of ''checksum'' ''zz'', rule_of ''not_null'' ''k'']
     = Inr \<lparr>passed = [rule_of ''not_null'' ''k''],
            failed = [(rule_of ''unique'' ''k'')\<lparr>error := Some ''3 duplicates found''\<rparr>],
            total_rules = 3, pass_rate = 1 / 3\<rparr>
   \<and> [rule_of ''unique'' ''k'', rule_of ''checksum'' ''zz'', rule_of ''not_null'' ''k''] \<noteq> []
   \<and> (1 / 3 :: rat) = of_nat (length [rule_of ''not_null'' ''k'']) / of_nat 3
   \<and> (0::rat) \<le> 1 / 3 \<and> (1 / 3 :: rat) \<le> 1"
  using mixed_run
    pass_rate_bounds [of marks "[rule_of ''unique'' ''k'', rule_of ''checksum'' ''zz'', rule_of ''not_null'' ''k'']"
      "\<lparr>passed = [rule_of ''not_null'' ''k''],
        failed = [(rule_of ''unique'' ''k'')\<lparr>error := Some ''3 duplicates found''\<rparr>],
        total_rules = 3, pass_rate = 1 / 3\<rparr>"]
  by simp

theorem unknown_rule_skipped_witness:
  "rule_type (rule_of ''checksum'' ''zz'') \<notin> Some ` known_rule_types
   \<and> validate_data_quality marks ([rule_of ''unique'' ''k''] @ rule_of ''checksum'' ''zz'' # [rule_of ''not_null'' ''k''])
     = Inr \<lparr>passed = [rule_of ''not_null'' ''k''],
            failed = [(rule_of ''unique'' ''k'')\<lparr>error := Some ''3 duplicates found''\<rparr>],
            total_rules = 3, pass_rate = 1 / 3\<rparr>
   \<and> rule_of ''checksum'' ''zz'' \<notin> set [rule_of ''not_null'' ''k'']
   \<and> rule_of ''checksum'' ''zz'' \<notin> set [(rule_of ''unique'' ''k'')\<lparr>error := Some ''3 duplicates found''\<rparr>]
   \<and> length [rule_of ''not_null'' ''k'']
       + length [(rule_of ''unique'' ''k'')\<lparr>error := Some ''3 duplicates found''\<rparr>] < (3::nat)
   \<and> validate_data_quality marks [rule_of ''checksum'' ''zz'']
       = Inr \<lparr>passed = [], failed = [], total_rules = 1, pass_rate = 0\<rparr>"
proof -
  have u: "rule_type (rule_of ''checksum'' ''zz'') \<notin> Some ` known_rule_types"
    by (simp add: rule_of_def known_rule_types_def)
  show ?thesis
    using u mixed_run
      unknown_rule_skipped [OF u, of marks _ "[rule_of ''unique'' ''k'']" "[rule_of ''not_null'' ''k'']"
        "\<lparr>passed = [rule_of ''not_null'' ''k''],
          failed = [(rule_of ''unique'' ''k'')\<lparr>error := Some ''3 duplicates found''\<rparr>],
          total_rules = 3, pass_rate = 1 / 3\<rparr>"]
    by simp
qed

lemma demo_run:
  "run_etl_pipeline memory_cloud bare_engine [(''raw/data.csv'', sample)] t0 t1
      ''raw/data.csv'' ''out/data.parquet''
      (Some [(cfg ''drop_nulls'')\<lparr>columns := Some [Some ''value'']\<rparr>]) ''parquet''
   = Inr (\<lparr>input_rows = 3, output_rows = 2,
            duration_seconds = of_int (t1 - t0) / 1000000,
            rows_per_second = (if (of_int (t1 - t0) / 1000000 :: rat) > 0
                               then 2 / (of_int (t1 - t0) / 1000000) else 0),
            source = ''raw/data.csv'', destination = ''out/data.parquet''\<rparr>,
          [(''out/data.parquet'',
            \<lparr>nrows = 2, cols = [(Some ''id'', [Num 1, Num 2]), (Some ''value'', [Num 5, Num (- 3)])]\<rparr>),
           (''raw/data.csv'', sample)])"
  by (simp add: run_etl_pipeline_def extract_from_s3_def load_to_s3_def memory_cloud_def
      endswith_def transform_def apply_transform_def store_new_def dropna_def take_rows_def
      notnull_mask_def returned_def cfg_def sample_def labels_def numbers_def isnull_def
      nth_append Let_def numeral_3_eq_3)

theorem throughput_guarded_witness:
  "run_etl_pipeline memory_cloud bare_engine [(''raw/data.csv'', sample)] 1000 1000
      ''raw/data.csv'' ''out/data.parquet''
      (Some [(cfg ''drop_nulls'')\<lparr>columns := Some [Some ''value'']\<rparr>]) ''parquet''
   = Inr (\<lparr>input_rows = 3, output_rows = 2, duration_seconds = 0, rows_per_second = 0,
            source = ''raw/data.csv'', destination = ''out/data.parquet''\<rparr>,
          [(''out/data.parquet'',
            \<lparr>nrows = 2, cols = [(Some ''id'', [Num 1, Num 2]), (Some ''value'', [Num 5, Num (- 3)])]\<rparr>),
           (''raw/data.csv'', sample)])
   \<and> run_etl_pipeline memory_cloud bare_engine [(''raw/data.csv'', sample)] 1000 501000
      ''raw/data.csv'' ''out/data.parquet''
      (Some [(cfg ''drop_nulls'')\<lparr>columns := Some [Some ''value'']\<rparr>]) ''parquet''
   = Inr (\<lparr>input_rows = 3, output_rows = 2, duration_seconds = 1 / 2, rows_per_second = 4,
            source = ''raw/data.csv'', destination = ''out/data.parquet''\<rparr>,
          [(''out/data.parquet'',
            \<lparr>nrows = 2, cols = [(Some ''id'', [Num 1, Num 2]), (Some ''value'', [Num 5, Num (- 3)])]\<rparr>),
           (''raw/data.csv'', sample)])
   \<and> (0::rat) < 1 / 2 \<and> (4::rat) = of_nat 2 / (1 / 2)"
proof -
  have zero: "run_etl_pipeline memory_cloud bare_engine [(''raw/data.csv'', sample)] 1000 1000
      ''raw/data.csv'' ''out/data.parquet''
      (Some [(cfg ''drop_nulls'')\<lparr>columns := Some [Some ''value'']\<rparr>]) ''parquet''
   = Inr (\<lparr>input_rows = 3, output_rows = 2, duration_seconds = 0, rows_per_second = 0,
            source = ''raw/data.csv'', destination = ''out/data.parquet''\<rparr>,
          [(''out/data.parquet'',
            \<lparr>nrows = 2, cols = [(Some ''id'', [Num 1, Num 2]), (Some ''value'', [Num 5, Num (- 3)])]\<rparr>),
           (''raw/data.csv'', sample)])"
    by (simp add: demo_run)
  have half: "run_etl_pipeline memory_cloud bare_engine [(''raw/data.csv'', sample)] 1000 501000
      ''raw/data.csv'' ''out/data.parquet''
      (Some [(cfg ''drop_nulls'')\<lparr>columns := Some [Some ''value'']\<rparr>]) ''parquet''
   = Inr (\<lparr>input_rows = 3, output_rows = 2, duration_seconds = 1 / 2, rows_per_second = 4,
            source = ''raw/data.csv'', destination = ''out/data.parquet''\<rparr>,
          [(''out/data.parquet'',
            \<lparr>nrows = 2, cols = [(Some ''id'', [Num 1, Num 2]), (Some ''value'', [Num 5, Num (- 3)])]\<rparr>),
           (''raw/data.csv'', sample)])"
    by (simp add: demo_run)
  show ?thesis
    using zero half throughput_guarded [OF zero] throughput_guarded [OF half]
    by simp
qed

end
